theory Spec2Isabelle
  imports Main "HOL-Library.AList" "HOL-Library.Word"
begin

section \<open>Data model (src/lib/models.ts)\<close>

text \<open>
  The bookmark export is a tree of two node shapes told apart by the tag field \<open>type\<close>
  (\<open>"folder"\<close> or \<open>"url"\<close>). Both shapes extend \<open>Base\<close>. The tag is the constructor
  of the datatype below; a field that the TypeScript interface declares as \<open>undefined\<close>
  (\<open>children\<close> of a bookmark, \<open>url\<close> of a folder) reads as \<open>None\<close>.
\<close>

record MetaInfo =
  Description :: "string option"
  Thumbnail :: "string option"
  power_bookmark_meta :: "string option"
  Nickname :: "string option"
  ThemeColor :: "string option"
  Partner :: "string option"
  Bookmarkbar :: "string option"

text \<open>The field \<open>id\<close> of the interface is called \<open>node_id\<close>: \<open>id\<close> is the identity function of HOL.\<close>

record Base =
  node_id :: string
  date_added :: string
  date_last_used :: string
  date_modified :: "string option"
  guid :: string
  meta_info :: "MetaInfo option"
  name :: string

datatype node =
    Folder Base "node list"
  | Bookmark Base string

fun base_of :: "node \<Rightarrow> Base" where
  "base_of (Folder b cs) = b"
| "base_of (Bookmark b u) = b"

fun type_of :: "node \<Rightarrow> string" where
  "type_of (Folder b cs) = ''folder''"
| "type_of (Bookmark b u) = ''url''"

fun children :: "node \<Rightarrow> node list option" where
  "children (Folder b cs) = Some cs"
| "children (Bookmark b u) = None"

fun url :: "node \<Rightarrow> string option" where
  "url (Folder b cs) = None"
| "url (Bookmark b u) = Some u"

definition item_name :: "node \<Rightarrow> string" where
  "item_name item = name (base_of item)"

text \<open>The four roots of the export are declared as folders.\<close>

record Roots =
  bookmark_bar :: node
  other :: node
  synced :: node
  trash :: node

record Root =
  checksum :: string
  roots :: Roots

section \<open>Navigation state and choice list (src/scripts/bookmarks.ts, lines 26-62)\<close>

text \<open>
  \<open>bookmarks\<close> is the list on display and \<open>historyStack\<close> the lists left behind, the most
  recent one last (\<open>push\<close> appends, \<open>pop\<close> removes the last element). The variable
  \<open>bookmarks\<close> is assigned the result of \<open>historyStack.pop()!\<close>; on an empty array
  \<open>pop\<close> returns \<open>undefined\<close> and the non-null assertion is erased at run time, so the
  variable can hold \<open>undefined\<close>: that value is \<open>None\<close> here.
\<close>

record nav =
  bookmarks :: "node list option"
  historyStack :: "node list list"

text \<open>The state in which the loop starts (lines 26 and 29).\<close>

definition initial_nav :: "Root \<Rightarrow> nav" where
  "initial_nav root = \<lparr> bookmarks = children (bookmark_bar (roots root)), historyStack = [] \<rparr>"

datatype OptionValue = GoBack | Item node

text \<open>
  The fields of a Kit choice that the script fills in. A field the object literal leaves
  out, or sets to \<open>undefined\<close>, is \<open>None\<close>.
\<close>

record Choice =
  c_name :: string
  c_description :: "string option"
  c_keyword :: "string option"
  c_img :: "string option"
  c_html :: "string option"
  c_value :: OptionValue

text \<open>
  An error object of the database driver. \<open>code\<close> is \<open>None\<close> when the object has no
  property of that name (\<open>"code" in err\<close> is false).
\<close>

record sqlite_error =
  message :: string
  code :: "string option"

text \<open>What the script can raise: a TypeError of the runtime, or an error of the driver.\<close>

datatype error =
    TypeError
  | StoreError sqlite_error

type_synonym favicon_map = "(string \<times> string) list"

text \<open>
  \<open>favicons[item.url]\<close>: the image stored under the key, \<open>undefined\<close> when there is
  none. (An address that spells a property every object inherits, such as
  \<open>constructor\<close>, is not told apart.)
\<close>

definition favicon_of :: "favicon_map \<Rightarrow> string \<Rightarrow> string option" where
  "favicon_of favicons u = map_of favicons u"

fun createChoice :: "favicon_map \<Rightarrow> node \<Rightarrow> Choice" where
  "createChoice favicons (Folder b cs) =
     \<lparr> c_name = name b,
       c_description = None,
       c_keyword = None,
       c_img = None,
       c_html = Some (''&#128193; '' @ name b),
       c_value = Item (Folder b cs) \<rparr>"
| "createChoice favicons (Bookmark b u) =
     \<lparr> c_name = name b,
       c_description = Some u,
       c_keyword = (case meta_info b of None \<Rightarrow> None | Some m \<Rightarrow> Nickname m),
       c_img = favicon_of favicons u,
       c_html = None,
       c_value = Item (Bookmark b u) \<rparr>"

text \<open>The name of the synthetic entry is the arrow U+2934 (three bytes in UTF-8) and \<open>" .."\<close>.\<close>

definition go_back_choice :: Choice where
  "go_back_choice =
     \<lparr> c_name = [char_of (226::nat), char_of (164::nat), char_of (180::nat)] @ '' ..'',
       c_description = Some ''Go back'',
       c_keyword = None,
       c_img = None,
       c_html = None,
       c_value = GoBack \<rparr>"

text \<open>
  \<open>bookmarks.map(createChoice)\<close> raises a TypeError when \<open>bookmarks\<close> is \<open>undefined\<close>;
  otherwise the entry "go back" is put in front when the stack holds something.
\<close>

definition buildChoices :: "favicon_map \<Rightarrow> nav \<Rightarrow> error + Choice list" where
  "buildChoices favicons s =
     (case bookmarks s of
        None \<Rightarrow> Inl TypeError
      | Some bs \<Rightarrow>
          (let choices = map (createChoice favicons) bs
           in if length (historyStack s) > 0
              then Inr (go_back_choice # choices)
              else Inr choices))"

section \<open>One turn of the selection loop (lines 86-105)\<close>

text \<open>
  What the loop does with the value the picker returned. The three outcomes are the
  three branches: \<open>WentBack\<close> is the branch of \<open>"go-back"\<close> (lines 86-89, \<open>continue\<close>),
  \<open>DescendedInto\<close> the branch of a folder (lines 93-98, \<open>continue\<close>) and \<open>Opened cmd\<close>
  the branch of a link (lines 100-103), which runs the shell command \<open>cmd\<close> and leaves
  the loop. The last line of the loop body, for a tag that is neither \<open>"folder"\<close> nor
  \<open>"url"\<close>, has no counterpart: \<open>node\<close> has no third variant.

  In the folder branch the stack is pushed first; then the list is searched for the first
  item whose name equals the name of the selection, and \<open>.children ?? []\<close> is read from
  the item found. \<open>find\<close> on \<open>undefined\<close>, and reading \<open>.children\<close> of the
  \<open>undefined\<close> that \<open>find\<close> returns when nothing matches, raise a TypeError, which
  ends the script.
\<close>

datatype outcome = WentBack | DescendedInto | Opened string

fun pop :: "'a list \<Rightarrow> 'a option \<times> 'a list" where
  "pop [] = (None, [])"
| "pop (x # xs) = (Some (last (x # xs)), butlast (x # xs))"

fun handleSelection :: "nav \<Rightarrow> OptionValue \<Rightarrow> error + (nav \<times> outcome)" where
  "handleSelection s GoBack =
     (let (top, rest) = pop (historyStack s)
      in Inr (\<lparr> bookmarks = top, historyStack = rest \<rparr>, WentBack))"
| "handleSelection s (Item (Folder b cs)) =
     (case bookmarks s of
        None \<Rightarrow> Inl TypeError
      | Some bs \<Rightarrow>
          (case find (\<lambda>bookmark. item_name bookmark = name b) bs of
             None \<Rightarrow> Inl TypeError
           | Some found \<Rightarrow>
               Inr (\<lparr> bookmarks = Some (case children found of None \<Rightarrow> [] | Some c \<Rightarrow> c),
                      historyStack = historyStack s @ [bs] \<rparr>,
                    DescendedInto)))"
| "handleSelection s (Item (Bookmark b u)) =
     Inr (s, Opened (''open '' @ [CHR 0x22] @ u @ [CHR 0x22]))"

section \<open>Favicon cache (lines 13-14 and 140-215)\<close>

text \<open>
  A row of the query. \<open>image_data\<close> is the blob column of the bitmap table, which the
  driver hands over as a \<open>Buffer\<close>, or as \<open>null\<close> where the column holds no value:
  \<open>None\<close> here. \<open>page_url\<close> is a string, as the row type declares.
\<close>

record BookmarkFavicon =
  page_url :: string
  image_data :: "8 word list option"

text \<open>\<open>Buffer.toString("base64")\<close>: the standard alphabet, padded with \<open>=\<close>.\<close>

definition base64_alphabet :: string where
  "base64_alphabet = ''ABCDEFGHIJKLMNOPQRSTUVWXYZabcdefghijklmnopqrstuvwxyz0123456789+/''"

definition base64_char :: "nat \<Rightarrow> char" where
  "base64_char i = base64_alphabet ! (i mod 64)"

fun base64 :: "8 word list \<Rightarrow> string" where
  "base64 [] = []"
| "base64 [a] =
     (let n = unat a * 65536
      in [base64_char (n div 262144), base64_char (n div 4096), CHR ''='', CHR ''=''])"
| "base64 [a, b] =
     (let n = unat a * 65536 + unat b * 256
      in [base64_char (n div 262144), base64_char (n div 4096), base64_char (n div 64), CHR ''=''])"
| "base64 (a # b # c # bytes) =
     (let n = unat a * 65536 + unat b * 256 + unat c
      in [base64_char (n div 262144), base64_char (n div 4096), base64_char (n div 64),
          base64_char n] @ base64 bytes)"

text \<open>
  Reading base 64 back: the place of a character in the alphabet, and the bytes of a
  text, four characters at a time. The script does not decode; the function serves to
  say that the text holds the image, every byte of it.
\<close>

definition base64_index :: "char \<Rightarrow> nat" where
  "base64_index c = length (takeWhile (\<lambda>x. x \<noteq> c) base64_alphabet)"

fun base64_decode :: "string \<Rightarrow> 8 word list" where
  "base64_decode (a # b # c # d # rest) =
     (let n = base64_index a * 262144 + base64_index b * 4096
      in if c = CHR ''='' then [of_nat (n div 65536)]
         else if d = CHR ''=''
         then (let m = n + base64_index c * 64
               in [of_nat (m div 65536), of_nat (m div 256)])
         else (let m = n + base64_index c * 64 + base64_index d
               in [of_nat (m div 65536), of_nat (m div 256), of_nat m] @ base64_decode rest))"
| "base64_decode text = []"

text \<open>
  A promise settles once: \<open>resolve\<close> and \<open>reject\<close> act on a pending promise only, and
  are ignored after that.
\<close>

datatype 'a promise = Pending | Fulfilled 'a | Rejected sqlite_error

fun resolve :: "'a \<Rightarrow> 'a promise \<Rightarrow> 'a promise" where
  "resolve v Pending = Fulfilled v"
| "resolve v p = p"

fun reject :: "sqlite_error \<Rightarrow> 'a promise \<Rightarrow> 'a promise" where
  "reject e Pending = Rejected e"
| "reject e p = p"

text \<open>
  The value of the promise is the string \<open>"locked"\<close> or the \<open>rows\<close> argument of the
  callback, which the driver leaves \<open>undefined\<close> (\<open>None\<close>) when it reports an error.
\<close>

datatype query_result = Locked | Rows "BookmarkFavicon list option"

text \<open>What the driver passes to the callback of \<open>db.all\<close>: \<open>(err, rows)\<close>.\<close>

type_synonym db_reply = "sqlite_error option \<times> BookmarkFavicon list option"

text \<open>
  The callback of \<open>db.all\<close> (lines 159-168). No branch returns: on an error the code
  runs on into \<open>reject(err)\<close> and then into \<open>resolve(rows)\<close>.
\<close>

fun all_callback :: "db_reply \<Rightarrow> query_result promise \<Rightarrow> query_result promise" where
  "all_callback (Some err, rows) p =
     resolve (Rows rows)
       (reject err (if code err = Some ''SQLITE_BUSY'' then resolve Locked p else p))"
| "all_callback (None, rows) p = resolve (Rows rows) p"

text \<open>
  The reduction of lines 180-185 into a JavaScript \<open>Map\<close>, row by row from the left,
  \<open>agg\<close> being the map so far: \<open>set\<close> replaces the value of a key that is present, in
  place, and appends a new key, which is what \<open>AList.update\<close> does. On a row whose
  \<open>image_data\<close> is \<open>null\<close> the call \<open>image_data.toString("base64")\<close> raises a
  TypeError, which ends the reduction: no map is built. \<open>Object.fromEntries\<close> turns the
  entries into an object with the same keys and values; the script reads it by key only
  (\<^const>\<open>favicon_of\<close>).
\<close>

fun b64Map_from :: "favicon_map \<Rightarrow> BookmarkFavicon list \<Rightarrow> error + favicon_map" where
  "b64Map_from agg [] = Inr agg"
| "b64Map_from agg (row # rows) =
     (case image_data row of
        None \<Rightarrow> Inl TypeError
      | Some bytes \<Rightarrow>
          b64Map_from
            (AList.update (page_url row) (''data:image/jpeg;base64,'' @ base64 bytes) agg)
            rows)"

definition b64Map :: "BookmarkFavicon list \<Rightarrow> error + favicon_map" where
  "b64Map rows = b64Map_from [] rows"

text \<open>
  What a call does to the outside, in order. \<open>cache_favicons\<close> is the field
  \<open>cache.favicons\<close>, \<open>cache_file\<close> the copy of it that \<open>cache.write()\<close> last stored,
  and \<open>events\<close> the record of the calls made to the picker and to the database.
\<close>

datatype event =
    SetHint string
  | DbOpen string
  | DbAll
  | DbClose
  | SelectPrompt
  | CacheWrite

record world =
  cache_favicons :: "favicon_map option"
  cache_file :: "favicon_map option"
  events :: "event list"

definition emit :: "event list \<Rightarrow> world \<Rightarrow> world" where
  "emit es w = w\<lparr>events := events w @ es\<rparr>"

datatype prompt_choice = Retry | Without

text \<open>
  \<open>loadFavicons\<close> and \<open>databaseLockedPrompt\<close> call each other, once for every answer
  "Retry" to a locked database, with no bound. The answers of the database to the
  successive queries and the answers of the user to the successive prompts are given as
  two lists; a call that needs an answer when its list is used up is still waiting, and
  its value is \<open>None\<close>. A call that returns a map \<open>m\<close> is \<open>Some (Inr m, w)\<close>, one that
  raises \<open>e\<close> is \<open>Some (Inl e, w)\<close>; \<open>w\<close> is the world it leaves.

  \<open>cache.favicons\<close> is \<open>null\<close> or an object, and every object is truthy, also the empty
  one. A rejected promise makes \<open>await\<close> raise, so the lines after it, \<open>db.close()\<close>
  among them, do not run. An error raised while the map is built comes after
  \<open>db.close()\<close> and \<open>setHint("")\<close> and before the cache is assigned, so it leaves the
  cache as it was. The callback given to the constructor of the database runs
  outside the call and is not modelled. \<open>new Map()\<close>, returned for "Continue without
  Favicons", is the empty map.
\<close>

fun loadFavicons ::
    "db_reply list \<Rightarrow> prompt_choice list \<Rightarrow> string \<Rightarrow> bool \<Rightarrow> world
      \<Rightarrow> ((error + favicon_map) \<times> world) option"
  and databaseLockedPrompt ::
    "db_reply list \<Rightarrow> prompt_choice list \<Rightarrow> string \<Rightarrow> world
      \<Rightarrow> ((error + favicon_map) \<times> world) option"
where
  "loadFavicons replies choices faviconsDbFile allowCached w =
     (case (if allowCached then cache_favicons w else None) of
        Some cached \<Rightarrow> Some (Inr cached, w)
      | None \<Rightarrow>
          (case replies of
             [] \<Rightarrow> None
           | reply # replies' \<Rightarrow>
               (let w1 = emit [SetHint ''Loading Favicons...'', DbOpen faviconsDbFile, DbAll] w
                in case all_callback reply Pending of
                     Pending \<Rightarrow> None
                   | Rejected err \<Rightarrow> Some (Inl (StoreError err), w1)
                   | Fulfilled result \<Rightarrow>
                       (let w2 = emit [DbClose, SetHint ''''] w1
                        in case result of
                             Locked \<Rightarrow> databaseLockedPrompt replies' choices faviconsDbFile w2
                           | Rows None \<Rightarrow> Some (Inl TypeError, w2)
                           | Rows (Some rows) \<Rightarrow>
                               (case b64Map rows of
                                  Inl e \<Rightarrow> Some (Inl e, w2)
                                | Inr b64Data \<Rightarrow>
                                    Some (Inr b64Data,
                                          emit [CacheWrite]
                                            (w2\<lparr>cache_favicons := Some b64Data,
                                                cache_file := Some b64Data\<rparr>)))))))"
| "databaseLockedPrompt replies [] faviconsDbFile w = None"
| "databaseLockedPrompt replies (choice # choices) faviconsDbFile w =
     (let w1 = emit [SelectPrompt, SetHint ''''] w
      in case choice of
           Without \<Rightarrow> Some (Inr [], w1)
         | Retry \<Rightarrow> loadFavicons replies choices faviconsDbFile False w1)"

text \<open>
  The number of connections a record of events leaves open: the databases opened less
  the calls of \<open>db.close()\<close>.
\<close>

definition unclosed :: "event list \<Rightarrow> int" where
  "unclosed es =
     int (length (filter (\<lambda>e. case e of DbOpen f \<Rightarrow> True | _ \<Rightarrow> False) es))
       - int (length (filter (\<lambda>e. e = DbClose) es))"

section \<open>The selection loop (lines 65-106)\<close>

text \<open>
  Each turn of the loop builds the choice list and hands it to the picker, which returns
  the value of one of the choices shown; the loop ends when a link is opened or an error
  is raised. The values the user picks are given as a list. When the list is used up the
  loop is waiting at the picker (\<open>Waiting\<close>, with the state it stands in); a value
  that is not among the choices shown cannot come from the picker, and the run has the
  value \<open>None\<close>. The shortcut "Update Favicons" reloads the favicons and shows the same
  choices again; it does not touch the state and has no part here.
\<close>

datatype loop_end = Waiting nav | Left string

fun main_loop :: "favicon_map \<Rightarrow> nav \<Rightarrow> OptionValue list \<Rightarrow> (error + loop_end) option" where
  "main_loop favicons s [] =
     (case buildChoices favicons s of
        Inl e \<Rightarrow> Some (Inl e)
      | Inr choices \<Rightarrow> Some (Inr (Waiting s)))"
| "main_loop favicons s (lastSelection # picks) =
     (case buildChoices favicons s of
        Inl e \<Rightarrow> Some (Inl e)
      | Inr choices \<Rightarrow>
          if lastSelection \<notin> set (map c_value choices) then None
          else
            (case handleSelection s lastSelection of
               Inl e \<Rightarrow> Some (Inl e)
             | Inr (s', Opened cmd) \<Rightarrow> Some (Inr (Left cmd))
             | Inr (s', _) \<Rightarrow> main_loop favicons s' picks))"

section \<open>Sample data\<close>

text \<open>
  The tree \<open>{A: folder [{B: link "http://x"}], C: link "http://y"}\<close>, the state at its
  root and the state inside \<open>A\<close>; a list with two folders of one name, which the
  browser allows; two errors of the database driver; a cache that holds a map, and an
  empty one; three rows of the favicon query, the first and the last for one page, and
  the same rows behind one whose image is \<open>null\<close>.
\<close>

definition base_named :: "string \<Rightarrow> string \<Rightarrow> Base" where
  "base_named i n =
     \<lparr> node_id = i, date_added = ''13350000000000000'', date_last_used = ''0'',
       date_modified = None, guid = i, meta_info = None, name = n \<rparr>"

definition example_B :: node where
  "example_B = Bookmark (base_named ''3'' ''B'') ''http://x''"

definition example_A :: node where
  "example_A = Folder (base_named ''2'' ''A'') [example_B]"

definition example_C :: node where
  "example_C = Bookmark (base_named ''4'' ''C'') ''http://y''"

definition example_root :: nav where
  "example_root = \<lparr> bookmarks = Some [example_A, example_C], historyStack = [] \<rparr>"

definition example_in_A :: nav where
  "example_in_A = \<lparr> bookmarks = Some [example_B], historyStack = [[example_A, example_C]] \<rparr>"

definition work_first :: node where
  "work_first = Folder (base_named ''5'' ''Work'') [Bookmark (base_named ''6'' ''a'') ''http://a'']"

definition work_second :: node where
  "work_second = Folder (base_named ''7'' ''Work'') [Bookmark (base_named ''8'' ''b'') ''http://b'']"

definition busy_error :: sqlite_error where
  "busy_error = \<lparr> message = ''SQLITE_BUSY: database is locked'', code = Some ''SQLITE_BUSY'' \<rparr>"

definition io_error :: sqlite_error where
  "io_error = \<lparr> message = ''SQLITE_IOERR: disk I/O error'', code = Some ''SQLITE_IOERR'' \<rparr>"

definition warm_world :: world where
  "warm_world =
     \<lparr> cache_favicons = Some [(''http://x'', ''data:image/jpeg;base64,TWFu'')],
       cache_file = Some [(''http://x'', ''data:image/jpeg;base64,TWFu'')],
       events = [] \<rparr>"

definition cold_world :: world where
  "cold_world = \<lparr> cache_favicons = None, cache_file = None, events = [] \<rparr>"

definition example_rows :: "BookmarkFavicon list" where
  "example_rows =
     [\<lparr> page_url = ''http://x'', image_data = Some [102] \<rparr>,
      \<lparr> page_url = ''http://y'', image_data = Some [102, 111] \<rparr>,
      \<lparr> page_url = ''http://x'', image_data = Some [102, 111, 111, 98] \<rparr>]"

definition example_rows_null :: "BookmarkFavicon list" where
  "example_rows_null = \<lparr> page_url = ''http://z'', image_data = None \<rparr> # example_rows"

section \<open>Properties of the navigation\<close>

lemma pop_snoc: "pop (xs @ [x]) = (Some x, xs)"
  by (cases xs) simp_all

lemma c_value_createChoice: "c_value (createChoice favicons item) = Item item"
  by (cases item) simp_all

lemma createChoice_not_back:
  "filter (\<lambda>c. c_value c \<noteq> GoBack) (map (createChoice favicons) bs) = map (createChoice favicons) bs"
  by (induction bs) (simp_all add: c_value_createChoice)

lemma GoBack_not_created: "GoBack \<notin> c_value ` set (map (createChoice favicons) bs)"
  by (auto simp: c_value_createChoice)

text \<open>
  What the folder branch computes: the children of the first item of the list that bears
  the name of the selection, whichever item that is.
\<close>

lemma descend_first_of_name:
  assumes "bookmarks s = Some bs"
      and "find (\<lambda>bookmark. item_name bookmark = name b) bs = Some found"
  shows "handleSelection s (Item (Folder b cs))
           = Inr (\<lparr> bookmarks = Some (case children found of None \<Rightarrow> [] | Some c \<Rightarrow> c),
                    historyStack = historyStack s @ [bs] \<rparr>, DescendedInto)"
  using assms by simp

lemma find_unique_name:
  assumes "distinct (map item_name bs)" and "x \<in> set bs"
  shows "find (\<lambda>bookmark. item_name bookmark = item_name x) bs = Some x"
  using assms by (induction bs) (auto simp: image_iff)

text \<open>
  Where no two items of the list on display share a name, selecting a folder of the list
  shows the children of that folder.
\<close>

lemma descend_unique_name:
  assumes "bookmarks s = Some bs" and "Folder b cs \<in> set bs" and "distinct (map item_name bs)"
  shows "handleSelection s (Item (Folder b cs))
           = Inr (\<lparr> bookmarks = Some cs, historyStack = historyStack s @ [bs] \<rparr>, DescendedInto)"
proof -
  from find_unique_name [OF assms(3) assms(2)]
  have "find (\<lambda>bookmark. item_name bookmark = name b) bs = Some (Folder b cs)"
    by (simp add: item_name_def)
  from descend_first_of_name [OF assms(1) this] show ?thesis by simp
qed

text \<open>
  A value the picker can return, in a state whose list is defined, is handled without an
  error and leaves the list defined. So the loop started on a list never stands in a
  state whose list is \<open>undefined\<close>, and never builds its choices in vain.
\<close>

lemma offered_selection_is_handled:
  assumes bs: "bookmarks s = Some bs"
      and built: "buildChoices favicons s = Inr choices"
      and offered: "v \<in> c_value ` set choices"
  shows "\<exists>s' out. handleSelection s v = Inr (s', out) \<and> bookmarks s' \<noteq> None"
proof (cases v)
  case GoBack
  with bs built offered have "historyStack s \<noteq> []"
    by (auto simp: buildChoices_def Let_def c_value_createChoice split: if_splits)
  then obtain rest top where "historyStack s = rest @ [top]"
    by (cases "historyStack s" rule: rev_cases) auto
  with GoBack show ?thesis by (simp add: pop_snoc)
next
  case (Item item)
  with bs built offered have mem: "item \<in> set bs"
    by (auto simp: buildChoices_def Let_def c_value_createChoice go_back_choice_def split: if_splits)
  show ?thesis
  proof (cases item)
    case (Folder b cs)
    from mem Folder have "\<exists>x\<in>set bs. item_name x = name b"
      by (auto simp: item_name_def intro!: bexI [of _ item])
    then obtain found where "find (\<lambda>bookmark. item_name bookmark = name b) bs = Some found"
      by (cases "find (\<lambda>bookmark. item_name bookmark = name b) bs") (auto simp: find_None_iff)
    with bs Item Folder show ?thesis by simp
  next
    case (Bookmark b u)
    with bs Item show ?thesis by simp
  qed
qed

lemma buildChoices_defined:
  "bookmarks s = Some bs \<Longrightarrow> \<exists>choices. buildChoices favicons s = Inr choices"
  by (simp add: buildChoices_def Let_def)

lemma main_loop_never_raises:
  assumes "bookmarks s \<noteq> None"
  shows "main_loop favicons s picks \<noteq> Some (Inl e)"
  using assms
proof (induction picks arbitrary: s)
  case Nil
  then obtain bs where "bookmarks s = Some bs" by auto
  from buildChoices_defined [OF this]
  obtain choices where "buildChoices favicons s = Inr choices" by blast
  then show ?case by simp
next
  case (Cons v picks)
  then obtain bs where bs: "bookmarks s = Some bs" by auto
  from buildChoices_defined [OF this]
  obtain choices where built: "buildChoices favicons s = Inr choices" by blast
  show ?case
  proof (cases "v \<in> set (map c_value choices)")
    case False
    with built show ?thesis by simp
  next
    case True
    then have "v \<in> c_value ` set choices" by simp
    from offered_selection_is_handled [OF bs built this]
    obtain s' out where step: "handleSelection s v = Inr (s', out)" and "bookmarks s' \<noteq> None"
      by blast
    from Cons.IH [OF this(2)] built True step show ?thesis
      by (cases out) simp_all
  qed
qed

corollary loop_from_root_never_raises:
  assumes "bookmark_bar (roots root) = Folder b cs"
  shows "main_loop favicons (initial_nav root) picks \<noteq> Some (Inl e)"
  by (rule main_loop_never_raises) (simp add: initial_nav_def assms)

text \<open>
  The sample tree: the root shows \<open>A\<close> and \<open>C\<close> and no way back; inside \<open>A\<close> the
  list is "go back" and \<open>B\<close>.
\<close>

lemma sample_choices:
  "buildChoices [] example_root = Inr [createChoice [] example_A, createChoice [] example_C]"
  "buildChoices [] example_in_A = Inr [go_back_choice, createChoice [] example_B]"
  by (simp_all add: buildChoices_def example_root_def example_in_A_def)

lemma sample_session:
  "main_loop [] example_root [Item example_A, GoBack]
     = Some (Inr (Waiting example_root))"
  "main_loop [] example_root [Item example_A, GoBack, Item example_C]
     = Some (Inr (Left (''open '' @ [CHR 0x22] @ ''http://y'' @ [CHR 0x22])))"
  by (simp_all add: buildChoices_def example_root_def example_A_def example_B_def
      example_C_def go_back_choice_def item_name_def base_named_def)

text \<open>Selecting a folder of the list on display succeeds.\<close>

lemma descend_defined:
  assumes "bookmarks s = Some bs" and "Folder b cs \<in> set bs"
  shows "\<exists>s'. handleSelection s (Item (Folder b cs)) = Inr (s', DescendedInto)"
proof -
  from assms(2) have "\<exists>x\<in>set bs. item_name x = name b"
    by (auto simp: item_name_def intro!: bexI [of _ "Folder b cs"])
  then obtain found where "find (\<lambda>bookmark. item_name bookmark = name b) bs = Some found"
    by (cases "find (\<lambda>bookmark. item_name bookmark = name b) bs") (auto simp: find_None_iff)
  with assms(1) show ?thesis by simp
qed

text \<open>
  Claim C1. Selecting an entry that stands for a folder pushes the list on display onto
  the stack and shows the children of that very folder. The code looks the folder up
  by its name in the list on display and takes the first item of that name. With two
  folders called "Work" in one list, selecting the second one shows the bookmark of
  the first one (\<open>http://a\<close>), not its own (\<open>http://b\<close>).
\<close>

theorem descend_takes_first_of_name:
  "handleSelection \<lparr> bookmarks = Some [work_first, work_second], historyStack = [] \<rparr>
       (Item work_second)
     = Inr (\<lparr> bookmarks = Some [Bookmark (base_named ''6'' ''a'') ''http://a''],
              historyStack = [[work_first, work_second]] \<rparr>, DescendedInto)
   \<and> children work_second = Some [Bookmark (base_named ''8'' ''b'') ''http://b'']"
  by (simp add: work_first_def work_second_def item_name_def base_named_def)

text \<open>
  Claim C2. In every state, hence after every sequence of descents and returns, a
  descent that succeeds followed at once by "go back" gives the state before the
  descent again: the same list on display, with the same items in the same order, and
  the same stack. Lists are values here, so "the same list" is equality of lists.
  The descent of a folder taken from the list on display does succeed.
\<close>

theorem descend_then_back:
  "(\<forall>bs. bookmarks s = Some bs \<and> Folder b cs \<in> set bs \<longrightarrow>
      (\<exists>s'. handleSelection s (Item (Folder b cs)) = Inr (s', DescendedInto)))
   \<and> (\<forall>s' out. handleSelection s (Item (Folder b cs)) = Inr (s', out) \<longrightarrow>
         out = DescendedInto \<and> handleSelection s' GoBack = Inr (s, WentBack))"
proof (intro conjI allI impI)
  fix bs
  assume "bookmarks s = Some bs \<and> Folder b cs \<in> set bs"
  then show "\<exists>s'. handleSelection s (Item (Folder b cs)) = Inr (s', DescendedInto)"
    using descend_defined by blast
next
  fix s' out
  assume "handleSelection s (Item (Folder b cs)) = Inr (s', out)"
  then show "out = DescendedInto" by (auto split: option.splits)
next
  fix s' out
  assume "handleSelection s (Item (Folder b cs)) = Inr (s', out)"
  then show "handleSelection s' GoBack = Inr (s, WentBack)"
    by (auto split: option.splits simp: pop_snoc)
qed

theorem descend_then_back_witness:
  "handleSelection example_root (Item example_A) = Inr (example_in_A, DescendedInto)
   \<and> handleSelection example_in_A GoBack = Inr (example_root, WentBack)"
proof -
  have shown: "bookmarks example_root = Some [example_A, example_C]
                 \<and> Folder (base_named ''2'' ''A'') [example_B] \<in> set [example_A, example_C]"
    by (simp add: example_root_def example_A_def)
  with descend_then_back [of example_root "base_named ''2'' ''A''" "[example_B]"]
  obtain s' where down: "handleSelection example_root (Item (Folder (base_named ''2'' ''A'') [example_B]))
                   = Inr (s', DescendedInto)"
    by blast
  with descend_then_back [of example_root "base_named ''2'' ''A''" "[example_B]"]
  have up: "handleSelection s' GoBack = Inr (example_root, WentBack)"
    by blast
  from down have "s' = example_in_A"
    by (simp add: example_root_def example_in_A_def example_A_def example_B_def example_C_def
        item_name_def base_named_def)
  with down up show ?thesis by (simp add: example_A_def)
qed

text \<open>
  Claim C3. In a state whose list on display is defined, the choice list is built, and
  it holds the entry "go back" exactly when the stack is not empty; the entry then
  comes first and only once; the other entries are the choices made from the items of
  the list, one for each item, in the order of the list.
\<close>

theorem buildChoices_back_entry:
  assumes "bookmarks s = Some bs"
  shows "\<exists>choices. buildChoices favicons s = Inr choices
           \<and> (GoBack \<in> c_value ` set choices \<longleftrightarrow> historyStack s \<noteq> [])
           \<and> (historyStack s \<noteq> [] \<longrightarrow>
                (\<exists>rest. choices = go_back_choice # rest \<and> GoBack \<notin> c_value ` set rest))
           \<and> filter (\<lambda>c. c_value c \<noteq> GoBack) choices = map (createChoice favicons) bs
           \<and> map c_value (filter (\<lambda>c. c_value c \<noteq> GoBack) choices) = map Item bs"
proof (cases "historyStack s = []")
  case True
  with assms have "buildChoices favicons s = Inr (map (createChoice favicons) bs)"
    by (simp add: buildChoices_def)
  with True show ?thesis
    using createChoice_not_back [of favicons bs] GoBack_not_created [of favicons bs]
    by (simp add: c_value_createChoice)
next
  case False
  with assms have "buildChoices favicons s = Inr (go_back_choice # map (createChoice favicons) bs)"
    by (simp add: buildChoices_def)
  with False show ?thesis
    using createChoice_not_back [of favicons bs] GoBack_not_created [of favicons bs]
    by (simp add: c_value_createChoice go_back_choice_def)
qed

theorem buildChoices_back_entry_witness:
  "\<exists>choices. buildChoices [] example_in_A = Inr choices
      \<and> GoBack \<in> c_value ` set choices
      \<and> (\<exists>rest. choices = go_back_choice # rest \<and> GoBack \<notin> c_value ` set rest)
      \<and> map c_value (filter (\<lambda>c. c_value c \<noteq> GoBack) choices) = [Item example_B]"
proof -
  have defined: "bookmarks example_in_A = Some [example_B]"
    by (simp add: example_in_A_def)
  have pushed: "historyStack example_in_A \<noteq> []"
    by (simp add: example_in_A_def)
  from buildChoices_back_entry [OF defined, of "[]"] pushed show ?thesis
    by auto
qed

text \<open>
  Claim C4, as the code has it. Selecting "go back" never fails. With a stack that is
  not empty it takes the most recent list off the stack and shows it. With an empty
  stack it goes the same way, with no error of its own: the stack stays empty and the
  list on display becomes \<open>undefined\<close>, so that the next choice list cannot be built
  (a TypeError). The choice list offers "go back" only over a stack that is not empty
  (claim C3), which keeps the loop out of that case.
\<close>

theorem go_back_pops:
  "\<exists>s'. handleSelection s GoBack = Inr (s', WentBack)
      \<and> (\<forall>rest top. historyStack s = rest @ [top] \<longrightarrow>
            bookmarks s' = Some top \<and> historyStack s' = rest)
      \<and> (historyStack s = [] \<longrightarrow>
            bookmarks s' = None \<and> historyStack s' = []
            \<and> buildChoices favicons s' = Inl TypeError)"
  by (cases "historyStack s" rule: rev_cases) (simp_all add: pop_snoc buildChoices_def)

theorem go_back_pops_witness:
  "(\<exists>s'. handleSelection example_in_A GoBack = Inr (s', WentBack)
       \<and> bookmarks s' = Some [example_A, example_C] \<and> historyStack s' = [])
   \<and> (\<exists>s'. handleSelection example_root GoBack = Inr (s', WentBack)
       \<and> bookmarks s' = None \<and> historyStack s' = [] \<and> buildChoices [] s' = Inl TypeError)"
proof -
  have pushed: "historyStack example_in_A = [] @ [[example_A, example_C]]"
    by (simp add: example_in_A_def)
  have empty: "historyStack example_root = []"
    by (simp add: example_root_def)
  from go_back_pops [of example_in_A "[]"] pushed
  have one: "\<exists>s'. handleSelection example_in_A GoBack = Inr (s', WentBack)
       \<and> bookmarks s' = Some [example_A, example_C] \<and> historyStack s' = []"
    by blast
  from go_back_pops [of example_root "[]"] empty
  have two: "\<exists>s'. handleSelection example_root GoBack = Inr (s', WentBack)
       \<and> bookmarks s' = None \<and> historyStack s' = [] \<and> buildChoices [] s' = Inl TypeError"
    by blast
  from one two show ?thesis by (rule conjI)
qed

text \<open>
  Claim C4 as the specification states it, with an error for the empty stack, fails at
  the root of the sample tree: the stack is empty there, and "go back" raises nothing
  but returns a new state, whose list on display is \<open>undefined\<close>.
\<close>

theorem go_back_on_empty_stack_returns:
  "historyStack example_root = []
   \<and> handleSelection example_root GoBack
       = Inr (\<lparr> bookmarks = None, historyStack = [] \<rparr>, WentBack)"
  by (simp add: example_root_def)

text \<open>
  Claim C9. Selecting an entry that stands for a link runs the command that opens its
  address and leaves the state as it was: the same list on display, the same stack.
\<close>

theorem open_link_keeps_state:
  "handleSelection s (Item (Bookmark b u))
     = Inr (s, Opened (''open '' @ [CHR 0x22] @ u @ [CHR 0x22]))
   \<and> (\<forall>s' out. handleSelection s (Item (Bookmark b u)) = Inr (s', out)
         \<longrightarrow> bookmarks s' = bookmarks s \<and> historyStack s' = historyStack s)"
  by simp

theorem open_link_keeps_state_witness:
  "handleSelection example_root (Item example_C)
     = Inr (example_root, Opened (''open '' @ [CHR 0x22] @ ''http://y'' @ [CHR 0x22]))"
  using open_link_keeps_state [of example_root "base_named ''4'' ''C''" "''http://y''"]
  by (simp add: example_C_def)

section \<open>Properties of the favicon cache\<close>

declare loadFavicons.simps [simp del]

lemma emit_cache [simp]:
  "cache_favicons (emit es w) = cache_favicons w" "cache_file (emit es w) = cache_file w"
  by (simp_all add: emit_def)

text \<open>
  The callback settles the promise once. An error with the code \<open>SQLITE_BUSY\<close> fulfils
  it with \<open>"locked"\<close>, and the \<open>reject\<close> and \<open>resolve\<close> that follow are ignored; any
  other error rejects it, and the \<open>resolve(rows)\<close> that follows is ignored.
\<close>

lemma all_callback_busy:
  "code e = Some ''SQLITE_BUSY'' \<Longrightarrow> all_callback (Some e, rows) Pending = Fulfilled Locked"
  by simp

lemma all_callback_error:
  "code e \<noteq> Some ''SQLITE_BUSY'' \<Longrightarrow> all_callback (Some e, rows) Pending = Rejected e"
  by simp

lemma all_callback_rows: "all_callback (None, rows) Pending = Fulfilled (Rows rows)"
  by simp

text \<open>The four ways of one call that reaches the database, and the way that does not.\<close>

lemma load_hit:
  "cache_favicons w = Some m \<Longrightarrow> loadFavicons replies choices f True w = Some (Inr m, w)"
  by (simp add: loadFavicons.simps)

lemma load_miss_error:
  assumes "code e \<noteq> Some ''SQLITE_BUSY''" and "allowCached \<longrightarrow> cache_favicons w = None"
  shows "loadFavicons ((Some e, rows) # replies) choices f allowCached w
           = Some (Inl (StoreError e), emit [SetHint ''Loading Favicons...'', DbOpen f, DbAll] w)"
  using assms by (simp add: loadFavicons.simps)

lemma load_miss_busy:
  assumes "code e = Some ''SQLITE_BUSY''" and "allowCached \<longrightarrow> cache_favicons w = None"
  shows "loadFavicons ((Some e, rows) # replies) choices f allowCached w
           = databaseLockedPrompt replies choices f
               (emit [DbClose, SetHint '''']
                  (emit [SetHint ''Loading Favicons...'', DbOpen f, DbAll] w))"
  using assms by (simp add: loadFavicons.simps)

lemma load_miss_rows:
  assumes "allowCached \<longrightarrow> cache_favicons w = None" and "b64Map rows = Inr b64Data"
  shows "loadFavicons ((None, Some rows) # replies) choices f allowCached w
           = Some (Inr b64Data,
                   emit [CacheWrite]
                     ((emit [DbClose, SetHint '''']
                         (emit [SetHint ''Loading Favicons...'', DbOpen f, DbAll] w))
                        \<lparr>cache_favicons := Some b64Data, cache_file := Some b64Data\<rparr>))"
  using assms by (simp add: loadFavicons.simps Let_def)

lemma load_miss_rows_raise:
  assumes "allowCached \<longrightarrow> cache_favicons w = None" and "b64Map rows = Inl e"
  shows "loadFavicons ((None, Some rows) # replies) choices f allowCached w
           = Some (Inl e,
                   emit [DbClose, SetHint '''']
                     (emit [SetHint ''Loading Favicons...'', DbOpen f, DbAll] w))"
  using assms by (simp add: loadFavicons.simps Let_def)

lemma b64Map_from_raises: "b64Map_from agg rows = Inl e \<Longrightarrow> e = TypeError"
  by (induction rows arbitrary: agg) (auto split: option.splits)

lemma load_miss_undefined:
  assumes "allowCached \<longrightarrow> cache_favicons w = None"
  shows "loadFavicons ((None, None) # replies) choices f allowCached w
           = Some (Inl TypeError,
                   emit [DbClose, SetHint '''']
                     (emit [SetHint ''Loading Favicons...'', DbOpen f, DbAll] w))"
  using assms by (simp add: loadFavicons.simps)

subsection \<open>Connections opened and closed\<close>

lemma unclosed_emit:
  "unclosed (events (emit es w)) = unclosed (events w) + unclosed es"
  by (simp add: emit_def unclosed_def)

lemma unclosed_steps [simp]:
  "unclosed [SetHint ''Loading Favicons...'', DbOpen f, DbAll] = 1"
  "unclosed [DbClose, SetHint ''''] = - 1"
  "unclosed [SelectPrompt, SetHint ''''] = 0"
  "unclosed [CacheWrite] = 0"
  by (simp_all add: unclosed_def)

text \<open>
  A call that returns a map, through any number of retries, has closed every connection
  it opened. A call that ends with an error of the database has left one open: the one
  whose query failed.
\<close>

lemma load_unclosed:
  assumes "loadFavicons replies choices f a w = Some (res, w')"
  shows "unclosed (events w') =
           unclosed (events w) + (case res of Inl (StoreError e) \<Rightarrow> 1 | _ \<Rightarrow> 0)"
  using assms
proof (induction replies arbitrary: choices a w)
  case Nil
  then show ?case by (auto simp: loadFavicons.simps split: option.splits if_splits)
next
  case (Cons r replies)
  obtain err rows where r: "r = (err, rows)" by (cases r)
  show ?case
  proof (cases "a \<and> cache_favicons w \<noteq> None")
    case True
    with Cons.prems show ?thesis by (auto simp: loadFavicons.simps)
  next
    case False
    then have miss: "a \<longrightarrow> cache_favicons w = None" by simp
    show ?thesis
    proof (cases err)
      case None
      show ?thesis
      proof (cases rows)
        case no_rows: None
        with None Cons.prems miss show ?thesis
          by (auto simp: r load_miss_undefined unclosed_emit)
      next
        case (Some rs)
        show ?thesis
        proof (cases "b64Map rs")
          case (Inl e')
          then have "e' = TypeError"
            unfolding b64Map_def by (rule b64Map_from_raises)
          with Inl have raised: "b64Map rs = Inl TypeError" by simp
          from load_miss_rows_raise [OF miss raised] Cons.prems
          have "res = Inl TypeError"
            and "w' = emit [DbClose, SetHint '''']
                        (emit [SetHint ''Loading Favicons...'', DbOpen f, DbAll] w)"
            by (simp_all add: r None Some)
          then show ?thesis by (simp add: unclosed_emit)
        next
          case (Inr m)
          from load_miss_rows [OF miss Inr] Cons.prems
          have "res = Inr m"
            and "w' = emit [CacheWrite]
                        ((emit [DbClose, SetHint '''']
                            (emit [SetHint ''Loading Favicons...'', DbOpen f, DbAll] w))
                           \<lparr>cache_favicons := Some m, cache_file := Some m\<rparr>)"
            by (simp_all add: r None Some)
          then show ?thesis by (simp add: emit_def unclosed_def)
        qed
      qed
    next
      case (Some e)
      show ?thesis
      proof (cases "code e = Some ''SQLITE_BUSY''")
        case False
        with Some Cons.prems miss show ?thesis
          by (auto simp: r load_miss_error unclosed_emit)
      next
        case True
        let ?w2 = "emit [DbClose, SetHint '''']
                     (emit [SetHint ''Loading Favicons...'', DbOpen f, DbAll] w)"
        from True Some Cons.prems miss
        have prompt: "databaseLockedPrompt replies choices f ?w2 = Some (res, w')"
          by (simp add: r load_miss_busy)
        have closed: "unclosed (events ?w2) = unclosed (events w)"
          by (simp add: unclosed_emit)
        show ?thesis
        proof (cases choices)
          case Nil
          with prompt show ?thesis by simp
        next
          case (Cons c cs)
          show ?thesis
          proof (cases c)
            case Without
            with prompt Cons closed show ?thesis by (auto simp: unclosed_emit)
          next
            case Retry
            with prompt Cons
            have "loadFavicons replies cs f False (emit [SelectPrompt, SetHint ''''] ?w2)
                    = Some (res, w')"
              by simp
            from Cons.IH [OF this] closed show ?thesis by (simp add: unclosed_emit)
          qed
        qed
      qed
    qed
  qed
qed

subsection \<open>The map built from the rows\<close>




text \<open>
  The reduction builds a map exactly when every row has an image; it is then the fold
  of \<open>set\<close> over the rows.
\<close>

lemma b64Map_from_fold:
  assumes "\<forall>r\<in>set rows. image_data r \<noteq> None"
  shows "b64Map_from agg rows
           = Inr (fold (\<lambda>row. AList.update (page_url row)
                          (''data:image/jpeg;base64,'' @ base64 (the (image_data row))))
                    rows agg)"
  using assms by (induction rows arbitrary: agg) auto

lemma b64Map_from_null:
  assumes "\<exists>r\<in>set rows. image_data r = None"
  shows "b64Map_from agg rows = Inl TypeError"
  using assms by (induction rows arbitrary: agg) (auto split: option.splits)

lemma b64Map_raises_iff:
  "b64Map rows = Inl TypeError \<longleftrightarrow> (\<exists>r\<in>set rows. image_data r = None)"
proof
  assume raised: "b64Map rows = Inl TypeError"
  show "\<exists>r\<in>set rows. image_data r = None"
  proof (rule ccontr)
    assume "\<not> (\<exists>r\<in>set rows. image_data r = None)"
    then have "\<forall>r\<in>set rows. image_data r \<noteq> None" by simp
    from b64Map_from_fold [OF this, of "[]"] raised show False
      by (simp add: b64Map_def)
  qed
next
  assume "\<exists>r\<in>set rows. image_data r = None"
  then show "b64Map rows = Inl TypeError"
    unfolding b64Map_def by (rule b64Map_from_null)
qed

text \<open>
  A row without an image, for whatever page, ends the call with a TypeError once the
  database is closed: no map is returned and the cache is as it was.
\<close>

lemma null_image_raises:
  assumes "allowCached \<longrightarrow> cache_favicons w = None"
      and "\<exists>r\<in>set rows. image_data r = None"
  shows "\<exists>w'. loadFavicons ((None, Some rows) # replies) choices f allowCached w
                 = Some (Inl TypeError, w')
             \<and> cache_favicons w' = cache_favicons w \<and> cache_file w' = cache_file w
             \<and> unclosed (events w') = unclosed (events w)"
proof -
  from assms(2) have "b64Map rows = Inl TypeError"
    by (simp add: b64Map_raises_iff)
  from load_miss_rows_raise [OF assms(1) this] show ?thesis
    by (simp add: unclosed_emit)
qed

lemma null_image_sample:
  "loadFavicons [(None, Some example_rows_null)] [] ''Favicons'' False warm_world
     = Some (Inl TypeError,
             warm_world \<lparr>events := [SetHint ''Loading Favicons...'', DbOpen ''Favicons'', DbAll,
                                    DbClose, SetHint '''']\<rparr>)"
  by (simp add: loadFavicons.simps b64Map_def example_rows_null_def warm_world_def emit_def)

subsection \<open>The encoding\<close>

text \<open>The test vectors of RFC 4648 (\<open>f\<close>, \<open>fo\<close>, \<open>foo\<close>, ...), and the three bytes \<open>Man\<close>.\<close>

lemma base64_vectors:
  "base64 [] = ''''"
  "base64 [102] = ''Zg==''"
  "base64 [102, 111] = ''Zm8=''"
  "base64 [102, 111, 111] = ''Zm9v''"
  "base64 [102, 111, 111, 98] = ''Zm9vYg==''"
  "base64 [102, 111, 111, 98, 97] = ''Zm9vYmE=''"
  "base64 [102, 111, 111, 98, 97, 114] = ''Zm9vYmFy''"
  "base64 [77, 97, 110] = ''TWFu''"
  "base64 [255, 254, 253, 252] = ''//79/A==''"
  by (simp_all add: base64_char_def base64_alphabet_def)

lemma length_base64: "length (base64 bytes) = 4 * ((length bytes + 2) div 3)"
proof (induction bytes rule: base64.induct)
  case (4 a b c bytes)
  have "(length (a # b # c # bytes) + 2) div 3 = Suc ((length bytes + 2) div 3)"
    by simp
  with 4 show ?case by (simp add: Let_def)
qed (simp_all add: Let_def)

text \<open>Decoding gives the bytes back, so the text of an image determines the image.\<close>

lemma base64_index_upto: "\<forall>i\<in>set [0..<64]. base64_index (base64_char i) = i"
  by code_simp

lemma base64_index_char: "base64_index (base64_char i) = i mod 64"
proof -
  have "i mod 64 \<in> set [0..<64]" by simp
  with base64_index_upto have "base64_index (base64_char (i mod 64)) = i mod 64" by blast
  then show ?thesis by (simp add: base64_char_def)
qed

lemma base64_char_not_pad: "base64_char i \<noteq> CHR ''=''"
proof -
  have "base64_char i \<in> set base64_alphabet"
    unfolding base64_char_def by (rule nth_mem) (simp add: base64_alphabet_def)
  moreover have "CHR ''='' \<notin> set base64_alphabet"
    by (simp add: base64_alphabet_def)
  ultimately show ?thesis by metis
qed


lemma sextets:
  fixes n :: nat
  assumes "n < 16777216"
  shows "(n div 262144) mod 64 * 262144 + (n div 4096) mod 64 * 4096
           + (n div 64) mod 64 * 64 + n mod 64 = n"
proof -
  have a: "n mod 4096 = 64 * (n div 64 mod 64) + n mod 64"
    using mod_mult2_eq [of n 64 64] by simp
  have b: "n mod 262144 = 4096 * (n div 4096 mod 64) + n mod 4096"
    using mod_mult2_eq [of n 4096 64] by simp
  have c: "n mod 16777216 = 262144 * (n div 262144 mod 64) + n mod 262144"
    using mod_mult2_eq [of n 262144 64] by simp
  from assms have "n mod 16777216 = n" by simp
  with a b c show ?thesis by simp
qed

lemma byte_low: "(of_nat (q * 256 + r) :: 8 word) = of_nat r"
proof -
  have "take_bit LENGTH(8) (q * 256 + r) = take_bit LENGTH(8) r"
    by (simp add: take_bit_eq_mod)
  then show ?thesis by (simp only: word_of_nat_eq_iff)
qed

lemma byte_of_unat: "(of_nat (unat a) :: 8 word) = a"
  by simp

lemma unat_byte: "unat (a :: 8 word) < 256"
  using unsigned_less [of a, where 'a = nat] by simp

lemma group_bound:
  fixes x y z :: nat
  assumes "x < 256" "y < 256" "z < 256"
  shows "x * 65536 + y * 256 + z < 16777216"
  using assms by linarith

lemma group_div1:
  fixes x y z :: nat
  assumes "y < 256" "z < 256"
  shows "(x * 65536 + y * 256 + z) div 65536 = x"
proof -
  from assms have "y * 256 + z < 65536" by linarith
  then have "(y * 256 + z) div 65536 = 0" by simp
  moreover have "(y * 256 + z + x * 65536) div 65536 = x + (y * 256 + z) div 65536"
    by (rule div_mult_self1) simp
  ultimately show ?thesis by (simp add: add.commute add.left_commute)
qed

lemma group_div2:
  fixes x y z :: nat
  assumes "z < 256"
  shows "(x * 65536 + y * 256 + z) div 256 = x * 256 + y"
proof -
  have "(z + (x * 256 + y) * 256) div 256 = (x * 256 + y) + z div 256"
    by (rule div_mult_self1) simp
  with assms show ?thesis by (simp add: algebra_simps)
qed

lemma sextets_of_chars:
  assumes "n < 16777216"
  shows "base64_index (base64_char (n div 262144)) * 262144
           + base64_index (base64_char (n div 4096)) * 4096
           + base64_index (base64_char (n div 64)) * 64
           + base64_index (base64_char n) = n"
  by (simp only: base64_index_char sextets [OF assms])

lemma decode_three:
  "base64_decode (base64 (a # b # c # bytes)) = a # b # c # base64_decode (base64 bytes)"
proof -
  define n where "n = unat a * 65536 + unat b * 256 + unat c"
  define m where "m = base64_index (base64_char (n div 262144)) * 262144
           + base64_index (base64_char (n div 4096)) * 4096
           + base64_index (base64_char (n div 64)) * 64
           + base64_index (base64_char n)"
  have enc: "base64 (a # b # c # bytes)
               = base64_char (n div 262144) # base64_char (n div 4096)
                   # base64_char (n div 64) # base64_char n # base64 bytes"
    by (simp add: n_def Let_def)
  have dec: "base64_decode (base64_char (n div 262144) # base64_char (n div 4096)
                   # base64_char (n div 64) # base64_char n # rest)
               = of_nat (m div 65536) # of_nat (m div 256) # of_nat m # base64_decode rest"
    for rest
    by (simp add: m_def Let_def base64_char_not_pad)
  have bound: "n < 16777216"
    unfolding n_def by (rule group_bound) (rule unat_byte)+
  have same: "m = n"
    unfolding m_def by (rule sextets_of_chars [OF bound])
  have first: "(of_nat (n div 65536) :: 8 word) = a"
    unfolding n_def by (simp only: group_div1 [OF unat_byte unat_byte] byte_of_unat)
  have second: "(of_nat (n div 256) :: 8 word) = b"
    unfolding n_def by (simp only: group_div2 [OF unat_byte] byte_low byte_of_unat)
  have "n = (unat a * 256 + unat b) * 256 + unat c"
    unfolding n_def by simp
  then have third: "(of_nat n :: 8 word) = c"
    by (simp only: byte_low byte_of_unat)
  show ?thesis
    by (simp only: enc dec same first second third)
qed

lemma decode_two: "base64_decode (base64 [a, b]) = [a, b]"
proof -
  define n where "n = unat a * 65536 + unat b * 256 + 0"
  define m where "m = base64_index (base64_char (n div 262144)) * 262144
           + base64_index (base64_char (n div 4096)) * 4096
           + base64_index (base64_char (n div 64)) * 64"
  have enc: "base64 [a, b]
               = [base64_char (n div 262144), base64_char (n div 4096),
                  base64_char (n div 64), CHR ''='']"
    by (simp add: n_def Let_def)
  have dec: "base64_decode [base64_char (n div 262144), base64_char (n div 4096),
                  base64_char (n div 64), CHR ''='']
               = [of_nat (m div 65536), of_nat (m div 256)]"
    by (simp add: m_def Let_def base64_char_not_pad)
  have bound: "n < 16777216"
    unfolding n_def by (rule group_bound) (simp_all add: unat_byte)
  have "n = 64 * (unat a * 1024 + unat b * 4)"
    unfolding n_def by simp
  then have "n mod 64 = 0"
    by (simp only: mod_mult_self1_is_0)
  then have "base64_index (base64_char n) = 0"
    by (simp only: base64_index_char)
  with sextets_of_chars [OF bound] have same: "m = n"
    unfolding m_def by simp
  have first: "(of_nat (n div 65536) :: 8 word) = a"
    unfolding n_def by (simp only: group_div1 [OF unat_byte zero_less_numeral] byte_of_unat)
  have second: "(of_nat (n div 256) :: 8 word) = b"
    unfolding n_def by (simp only: group_div2 [OF zero_less_numeral] byte_low byte_of_unat)
  show ?thesis
    by (simp only: enc dec same first second)
qed

lemma decode_one: "base64_decode (base64 [a]) = [a]"
proof -
  define n where "n = unat a * 65536 + 0 * 256 + 0"
  define m where "m = base64_index (base64_char (n div 262144)) * 262144
           + base64_index (base64_char (n div 4096)) * 4096"
  have enc: "base64 [a]
               = [base64_char (n div 262144), base64_char (n div 4096), CHR ''='', CHR ''='']"
    by (simp add: n_def Let_def)
  have dec: "base64_decode [base64_char (n div 262144), base64_char (n div 4096),
                  CHR ''='', CHR ''='']
               = [of_nat (m div 65536)]"
    by (simp add: m_def Let_def)
  have bound: "n < 16777216"
    unfolding n_def by (rule group_bound) (simp_all add: unat_byte)
  have mult: "n = 64 * (64 * (unat a * 16))"
    unfolding n_def by simp
  then have "n mod 64 = 0"
    by (simp only: mod_mult_self1_is_0)
  then have low: "base64_index (base64_char n) = 0"
    by (simp only: base64_index_char)
  from mult have "n div 64 = 64 * (unat a * 16)"
    by simp
  then have "(n div 64) mod 64 = 0"
    by (simp only: mod_mult_self1_is_0)
  then have mid: "base64_index (base64_char (n div 64)) = 0"
    by (simp only: base64_index_char)
  from sextets_of_chars [OF bound] low mid have same: "m = n"
    unfolding m_def by simp
  have first: "(of_nat (n div 65536) :: 8 word) = a"
    unfolding n_def by (simp only: group_div1 [OF zero_less_numeral zero_less_numeral] byte_of_unat)
  show ?thesis
    by (simp only: enc dec same first)
qed

lemma base64_decode_base64: "base64_decode (base64 bytes) = bytes"
proof (induction bytes rule: base64.induct)
  case 1
  show ?case by simp
next
  case (2 a)
  show ?case by (rule decode_one)
next
  case (3 a b)
  show ?case by (rule decode_two)
next
  case (4 a b c bytes)
  then show ?case by (simp only: decode_three)
qed

lemma base64_inject: "base64 xs = base64 ys \<Longrightarrow> xs = ys"
  by (metis base64_decode_base64)

text \<open>
  Claim C5. An error of the database other than "busy" ends the call with that error,
  at the first query and after any number of locked queries answered with "Retry"
  alike: the call returns no map, empty or not, and the cache is as it was. (That a
  busy database leads to the prompt instead is claim C6.)
\<close>

theorem store_error_is_fatal:
  assumes other: "code err \<noteq> Some ''SQLITE_BUSY''"
      and miss: "allowCached \<longrightarrow> cache_favicons w = None"
      and busy: "\<forall>r\<in>set locked. \<exists>e rows. r = (Some e, rows) \<and> code e = Some ''SQLITE_BUSY''"
  shows "\<exists>w'. loadFavicons (locked @ (Some err, rows) # replies)
                  (replicate (length locked) Retry @ choices) f allowCached w
                = Some (Inl (StoreError err), w')
              \<and> cache_favicons w' = cache_favicons w \<and> cache_file w' = cache_file w"
  using miss busy
proof (induction locked arbitrary: w allowCached)
  case Nil
  then show ?case using other by (simp add: load_miss_error)
next
  case (Cons r locked)
  from Cons.prems(2) obtain e rs where r: "r = (Some e, rs)" and e: "code e = Some ''SQLITE_BUSY''"
    by auto
  let ?w1 = "emit [SelectPrompt, SetHint '''']
               (emit [DbClose, SetHint '''']
                  (emit [SetHint ''Loading Favicons...'', DbOpen f, DbAll] w))"
  have again: "loadFavicons ((r # locked) @ (Some err, rows) # replies)
                  (replicate (length (r # locked)) Retry @ choices) f allowCached w
            = loadFavicons (locked @ (Some err, rows) # replies)
                  (replicate (length locked) Retry @ choices) f False ?w1"
    using e Cons.prems(1) by (simp add: r load_miss_busy)
  have "\<exists>w'. loadFavicons (locked @ (Some err, rows) # replies)
                  (replicate (length locked) Retry @ choices) f False ?w1
                = Some (Inl (StoreError err), w')
              \<and> cache_favicons w' = cache_favicons ?w1 \<and> cache_file w' = cache_file ?w1"
    using Cons.prems(2) by (intro Cons.IH) simp_all
  then show ?case unfolding again by simp
qed

theorem store_error_is_fatal_witness:
  "code io_error \<noteq> Some ''SQLITE_BUSY''
   \<and> (\<exists>w'. loadFavicons [(Some busy_error, None), (Some io_error, None)] [Retry]
               ''Favicons'' False warm_world
             = Some (Inl (StoreError io_error), w')
           \<and> cache_favicons w' = cache_favicons warm_world
           \<and> cache_file w' = cache_file warm_world)"
proof -
  have other: "code io_error \<noteq> Some ''SQLITE_BUSY''"
    by (simp add: io_error_def)
  have miss: "False \<longrightarrow> cache_favicons warm_world = None"
    by simp
  have busy: "\<forall>r\<in>set [(Some busy_error, None :: BookmarkFavicon list option)].
                \<exists>e rows. r = (Some e, rows) \<and> code e = Some ''SQLITE_BUSY''"
    by (simp add: busy_error_def)
  from store_error_is_fatal [OF other miss busy, of None "[]" "[]" "''Favicons''"] other
  show ?thesis by simp
qed

text \<open>
  Claim C6. When the query finds the database busy and the user answers "Continue
  without Favicons", the call returns the empty map and the cache is as it was, in the
  field and in the file; if the cache held a map before, the next call that allows the
  cache returns that map, not the empty one.
\<close>

theorem continue_without_keeps_cache:
  assumes "code e = Some ''SQLITE_BUSY''" and "allowCached \<longrightarrow> cache_favicons w = None"
  shows "\<exists>w'. loadFavicons ((Some e, rows) # replies) (Without # choices) f allowCached w
                = Some (Inr [], w')
            \<and> cache_favicons w' = cache_favicons w \<and> cache_file w' = cache_file w
            \<and> (\<forall>m. cache_favicons w = Some m \<longrightarrow>
                  loadFavicons replies' choices' f True w' = Some (Inr m, w'))"
  using assms by (simp add: load_miss_busy load_hit)

theorem continue_without_keeps_cache_witness:
  "\<exists>w'. loadFavicons [(Some busy_error, None)] [Without] ''Favicons'' False warm_world
           = Some (Inr [], w')
       \<and> cache_favicons w' = cache_favicons warm_world
       \<and> cache_file w' = cache_file warm_world
       \<and> loadFavicons [] [] ''Favicons'' True w'
           = Some (Inr [(''http://x'', ''data:image/jpeg;base64,TWFu'')], w')"
proof -
  have busy: "code busy_error = Some ''SQLITE_BUSY''"
    by (simp add: busy_error_def)
  have miss: "False \<longrightarrow> cache_favicons warm_world = None"
    by simp
  have held: "cache_favicons warm_world = Some [(''http://x'', ''data:image/jpeg;base64,TWFu'')]"
    by (simp add: warm_world_def)
  from continue_without_keeps_cache [OF busy miss, of None "[]" "[]" "''Favicons''" "[]" "[]"] held
  show ?thesis by auto
qed

text \<open>
  Claim C7. When the caller allows the cache and the cache holds a map, the call returns
  that map and leaves the world as it was: no event is recorded, so no database is
  opened and no query is made, and no answer of the database is needed.
\<close>

theorem cached_load_skips_store:
  assumes "cache_favicons w = Some m"
  shows "loadFavicons replies choices f True w = Some (Inr m, w)
         \<and> loadFavicons [] [] f True w = Some (Inr m, w)"
  using assms by (simp add: load_hit)

theorem cached_load_skips_store_witness:
  "loadFavicons [(Some io_error, None)] [] ''Favicons'' True warm_world
     = Some (Inr [(''http://x'', ''data:image/jpeg;base64,TWFu'')], warm_world)"
proof -
  have held: "cache_favicons warm_world = Some [(''http://x'', ''data:image/jpeg;base64,TWFu'')]"
    by (simp add: warm_world_def)
  from cached_load_skips_store [OF held] show ?thesis by simp
qed

text \<open>
  Claim C8. Every call that opens the database closes it before it returns or raises.
  The code closes it after the query has been answered with rows or with "busy"; when
  the query fails with another error, \<open>await\<close> raises and \<open>db.close()\<close> is not
  reached. Below, a query that fails with an I/O error: the call ends with that error,
  with a database opened and none closed.
\<close>

theorem failed_query_leaves_connection_open:
  "loadFavicons [(Some io_error, None)] [] ''Favicons'' False cold_world
     = Some (Inl (StoreError io_error),
             \<lparr> cache_favicons = None, cache_file = None,
               events = [SetHint ''Loading Favicons...'', DbOpen ''Favicons'', DbAll] \<rparr>)
   \<and> unclosed [SetHint ''Loading Favicons...'', DbOpen ''Favicons'', DbAll] = 1"
  by (simp add: loadFavicons.simps io_error_def cold_world_def emit_def)



end
